theory Spec2Isabelle
  imports Complex_Main "HOL-Library.Sublist"
begin

section \<open>Time series\<close>

text \<open>
  A pandas Series with a DatetimeIndex is a list of rows (timestamp, value) in index
  order. Timestamps are seconds since an epoch. Values are the float64 entries, read as
  real numbers; a NaN entry is \<open>None\<close> where the code can produce one.
  Both filters sort the index before the steps below, and the readers drop duplicated
  timestamps (\<open>duplicated(keep='last')\<close>), so the series they work on have strictly
  increasing timestamps; the theorems that need this say so.
\<close>

type_synonym time = int
type_synonym series = "(time \<times> real) list"

datatype error = IndexError | KeyError

definition strict_index :: "series \<Rightarrow> bool" where
  "strict_index u = sorted_wrt (<) (map fst u)"

text \<open>\<open>u.diff()\<close>: NaN at the first row, then each value minus the one before it.\<close>

fun diffs_from :: "real \<Rightarrow> real list \<Rightarrow> real option list" where
  "diffs_from p [] = []"
| "diffs_from p (v # vs) = Some (v - p) # diffs_from v vs"

definition diff_s :: "series \<Rightarrow> real option list" where
  "diff_s u = (case map snd u of [] \<Rightarrow> [] | v # vs \<Rightarrow> None # diffs_from v vs)"

text \<open>Comparisons with NaN are False.\<close>

definition gt_nan :: "real option \<Rightarrow> real \<Rightarrow> bool" where
  "gt_nan d c = (case d of None \<Rightarrow> False | Some x \<Rightarrow> x > c)"

definition lt_nan :: "real option \<Rightarrow> real \<Rightarrow> bool" where
  "lt_nan d c = (case d of None \<Rightarrow> False | Some x \<Rightarrow> x < c)"

text \<open>\<open>u[mask]\<close>: the rows whose mask entry is True.\<close>

definition mask_rows :: "series \<Rightarrow> bool list \<Rightarrow> series" where
  "mask_rows u m = map fst (filter snd (zip u m))"

text \<open>\<open>s.index.format()[0]\<close>: the first label, IndexError on an empty series.\<close>

definition first_index :: "series \<Rightarrow> error + time" where
  "first_index s = (case s of [] \<Rightarrow> Inl IndexError | (t, _) # _ \<Rightarrow> Inr t)"

text \<open>\<open>u[label]\<close>: the value at a label, KeyError when the label is absent.\<close>

definition at_label :: "series \<Rightarrow> time \<Rightarrow> error + real" where
  "at_label u t = (case map_of u t of None \<Rightarrow> Inl KeyError | Some v \<Rightarrow> Inr v)"

text \<open>\<open>u[:label][-2]\<close>: the last but one of the rows up to and including the label.\<close>

definition before_label :: "series \<Rightarrow> time \<Rightarrow> error + real" where
  "before_label u t =
     (let pre = filter (\<lambda>(t', _). t' \<le> t) u
      in if length pre < 2 then Inl IndexError else Inr (snd (pre ! (length pre - 2))))"

text \<open>
  \<open>jump_val = u[jump_ind] - u[:jump_ind][-2]\<close>: value directly after minus value
  directly before the jump.
\<close>

definition jump_value :: "series \<Rightarrow> time \<Rightarrow> error + real" where
  "jump_value u t =
     (case at_label u t of Inl e \<Rightarrow> Inl e
      | Inr a \<Rightarrow> (case before_label u t of Inl e \<Rightarrow> Inl e | Inr b \<Rightarrow> Inr (a - b)))"

text \<open>
  The body of the correction loop:
  \<open>adj = u[u.index >= t] - jump_val; u = pd.concat([u[~(u.index >= t)], adj])\<close>.
\<close>

definition shift_after :: "time \<Rightarrow> real \<Rightarrow> series \<Rightarrow> series" where
  "shift_after t jump_val u =
     filter (\<lambda>(t', _). \<not> t' \<ge> t) u
     @ map (\<lambda>(t', v). (t', v - jump_val)) (filter (\<lambda>(t', _). t' \<ge> t) u)"

section \<open>Discontinuity correction of the reflector height (filter_gnssir)\<close>

text \<open>\<open>jump = gnssir_rh[(gnssir_rh.diff() > 2500)]\<close>\<close>

definition gnssir_jump :: "series \<Rightarrow> series" where
  "gnssir_jump u = mask_rows u (map (\<lambda>d. gt_nan d 2500) (diff_s u))"

text \<open>
  The \<open>while jump.empty is False\<close> loop. \<open>jump\<close> is recomputed from the current
  series at the end of each pass, so the loop head reads it from the series. The loop
  need not end for every \<open>jump_val\<close>; not ending is \<open>None\<close>.
\<close>

partial_function (option) gnssir_jump_loop :: "real \<Rightarrow> series \<Rightarrow> series option" where
  "gnssir_jump_loop jump_val u =
     (case first_index (gnssir_jump u) of
        Inl _ \<Rightarrow> Some u
      | Inr t \<Rightarrow> gnssir_jump_loop jump_val (shift_after t jump_val u))"

text \<open>
  Lines 3151 to 3164 of filter_gnssir: the first jump's label and magnitude are read
  before the loop tests whether there is a jump.
\<close>

definition filter_gnssir_jumps :: "series \<Rightarrow> (error + series) option" where
  "filter_gnssir_jumps u =
     (case first_index (gnssir_jump u) of
        Inl e \<Rightarrow> Some (Inl e)
      | Inr jump_ind \<Rightarrow>
          (case jump_value u jump_ind of
             Inl e \<Rightarrow> Some (Inl e)
           | Inr jump_val \<Rightarrow> map_option Inr (gnssir_jump_loop jump_val u)))"

section \<open>Discontinuity correction of the baseline height (filter_rtklib_solutions)\<close>

text \<open>
  Lines 1219 to 1226: rows that rise by more than 1000 mm and are followed by a row more
  than 1000 mm lower are dropped. \<open>next_line[0]\<close> raises IndexError when the row is
  the last one.
\<close>

definition next_line :: "series \<Rightarrow> time \<Rightarrow> error + real" where
  "next_line u t =
     (case filter (\<lambda>(t', _). t' > t) u of [] \<Rightarrow> Inl IndexError | (_, v) # _ \<Rightarrow> Inr v)"

definition drop_label :: "time \<Rightarrow> series \<Rightarrow> series" where
  "drop_label t u = filter (\<lambda>(t', _). t' \<noteq> t) u"

fun drop_pos_outliers :: "series \<Rightarrow> series \<Rightarrow> error + series" where
  "drop_pos_outliers [] u = Inr u"
| "drop_pos_outliers ((t, v) # js) u =
     (case next_line u t of
        Inl e \<Rightarrow> Inl e
      | Inr n \<Rightarrow> drop_pos_outliers js (if n < v - 1000 then drop_label t u else u))"

text \<open>Lines 1229 to 1233: the same for rows that fall by more than 1000 mm.\<close>

fun drop_neg_outliers :: "series \<Rightarrow> series \<Rightarrow> error + series" where
  "drop_neg_outliers [] u = Inr u"
| "drop_neg_outliers ((t, v) # js) u =
     (case next_line u t of
        Inl e \<Rightarrow> Inl e
      | Inr n \<Rightarrow> drop_neg_outliers js (if n > v + 1000 then drop_label t u else u))"

definition filter_rtklib_outliers :: "series \<Rightarrow> error + series" where
  "filter_rtklib_outliers u =
     (let jump_or_outlier = mask_rows u (map (\<lambda>d. gt_nan d 1000) (diff_s u))
      in case drop_pos_outliers jump_or_outlier u of
           Inl e \<Rightarrow> Inl e
         | Inr u1 \<Rightarrow>
             (let value_after_jump = mask_rows u1 (map (\<lambda>d. lt_nan d (- 1000)) (diff_s u1))
              in drop_neg_outliers value_after_jump u1))"

text \<open>
  \<open>jump = u.diff()[(u.diff() < -1000)]\<close>: only the labels of \<open>jump\<close> and whether it
  is empty are used.
\<close>

definition rtklib_jump :: "series \<Rightarrow> series" where
  "rtklib_jump u = mask_rows u (map (\<lambda>d. lt_nan d (- 1000)) (diff_s u))"

partial_function (option) rtklib_jump_loop :: "real \<Rightarrow> series \<Rightarrow> series option" where
  "rtklib_jump_loop jump_val u =
     (case first_index (rtklib_jump u) of
        Inl _ \<Rightarrow> Some u
      | Inr t \<Rightarrow> rtklib_jump_loop jump_val (shift_after t jump_val u))"

text \<open>Lines 1236 to 1247 of filter_rtklib_solutions.\<close>

definition filter_rtklib_jumps :: "series \<Rightarrow> (error + series) option" where
  "filter_rtklib_jumps u =
     (case first_index (rtklib_jump u) of
        Inl e \<Rightarrow> Some (Inl e)
      | Inr jump_ind \<Rightarrow>
          (case jump_value u jump_ind of
             Inl e \<Rightarrow> Some (Inl e)
           | Inr jump_val \<Rightarrow> map_option Inr (rtklib_jump_loop jump_val u)))"

text \<open>Lines 1218 to 1247: outlier removal, then jump correction.\<close>

definition filter_rtklib_correct :: "series \<Rightarrow> (error + series) option" where
  "filter_rtklib_correct u =
     (case filter_rtklib_outliers u of
        Inl e \<Rightarrow> Some (Inl e)
      | Inr u' \<Rightarrow> filter_rtklib_jumps u')"

text \<open>
  The rows picked by a mask over \<open>diff()\<close>, read along the series with the value
  before each row at hand: an equivalent form of \<open>mask_rows u (map P (diff_s u))\<close>
  used in the proofs.
\<close>

fun pick_from :: "(real option \<Rightarrow> bool) \<Rightarrow> real \<Rightarrow> series \<Rightarrow> series" where
  "pick_from P p [] = []"
| "pick_from P p ((t, v) # r) =
     (if P (Some (v - p)) then (t, v) # pick_from P v r else pick_from P v r)"

section \<open>Rolling and bucket statistics\<close>

text \<open>
  \<open>median()\<close> and \<open>std()\<close> (sample standard deviation, ddof = 1) of a window or a
  bucket. An empty window has no median and fewer than two values have no standard
  deviation: pandas gives NaN, here \<open>None\<close>.
\<close>

definition median :: "real list \<Rightarrow> real option" where
  "median xs =
     (let s = sort xs; n = length s
      in if n = 0 then None
         else if odd n then Some (s ! (n div 2))
         else Some ((s ! (n div 2 - 1) + s ! (n div 2)) / 2))"

definition mean :: "real list \<Rightarrow> real" where
  "mean xs = sum_list xs / real (length xs)"

definition std :: "real list \<Rightarrow> real option" where
  "std xs =
     (let n = length xs
      in if n < 2 then None
         else Some (sqrt (sum_list (map (\<lambda>x. (x - mean xs)\<^sup>2) xs) / real (n - 1))))"

section \<open>Outlier filter (filter_rtklib_solutions 1251 to 1255, filter_gnssir 3168 to 3172)\<close>

text \<open>
  \<open>u.rolling(window)\<close> with a time offset: the window of row \<open>i\<close> holds the rows up
  to and including \<open>i\<close> whose timestamp is later than the timestamp of \<open>i\<close> minus the
  window length. The index is sorted by the \<open>sort_index()\<close> before. Both filters pass
  \<open>'3D'\<close>, 259200 seconds.
\<close>

definition rolling :: "int \<Rightarrow> series \<Rightarrow> nat \<Rightarrow> real list" where
  "rolling window u i =
     map snd (filter (\<lambda>(t', _). t' > fst (u ! i) - window) (take (Suc i) u))"

text \<open>\<open>median + threshold * std\<close> and \<open>median - threshold * std\<close>; NaN propagates.\<close>

definition upper_limit :: "int \<Rightarrow> real \<Rightarrow> series \<Rightarrow> nat \<Rightarrow> real option" where
  "upper_limit window threshold u i =
     (case (median (rolling window u i), std (rolling window u i)) of
        (Some m, Some s) \<Rightarrow> Some (m + threshold * s)
      | _ \<Rightarrow> None)"

definition lower_limit :: "int \<Rightarrow> real \<Rightarrow> series \<Rightarrow> nat \<Rightarrow> real option" where
  "lower_limit window threshold u i =
     (case (median (rolling window u i), std (rolling window u i)) of
        (Some m, Some s) \<Rightarrow> Some (m - threshold * s)
      | _ \<Rightarrow> None)"

definition cmp_gt :: "real \<Rightarrow> real option \<Rightarrow> bool" where
  "cmp_gt v l = (case l of None \<Rightarrow> False | Some x \<Rightarrow> v > x)"

definition cmp_lt :: "real \<Rightarrow> real option \<Rightarrow> bool" where
  "cmp_lt v l = (case l of None \<Rightarrow> False | Some x \<Rightarrow> v < x)"

text \<open>\<open>u_clean = u[(u > lower_limit) & (u < upper_limit)]\<close>\<close>

definition remove_outliers :: "int \<Rightarrow> real \<Rightarrow> series \<Rightarrow> series" where
  "remove_outliers window threshold u =
     mask_rows u
       (map (\<lambda>i. cmp_gt (snd (u ! i)) (lower_limit window threshold u i)
                \<and> cmp_lt (snd (u ! i)) (upper_limit window threshold u i))
          [0..<length u])"

definition filter_rtklib_clean :: "real \<Rightarrow> series \<Rightarrow> series" where
  "filter_rtklib_clean threshold u = remove_outliers 259200 threshold u"

definition filter_gnssir_clean :: "real \<Rightarrow> series \<Rightarrow> series" where
  "filter_gnssir_clean threshold u = remove_outliers 259200 threshold u"

section \<open>Daily aggregation\<close>

text \<open>
  \<open>resample('D')\<close>: one bucket for every calendar day from the day of the first row to
  the day of the last row of the sorted series, labelled by its day number; an empty
  series gives an empty result. The statistic of a bucket without rows is NaN.
\<close>

definition day_of :: "time \<Rightarrow> int" where
  "day_of t = t div 86400"

definition bucket :: "int \<Rightarrow> series \<Rightarrow> real list" where
  "bucket d u = map snd (filter (\<lambda>(t, _). day_of t = d) u)"

definition resample_D :: "(real list \<Rightarrow> real option) \<Rightarrow> series \<Rightarrow> (int \<times> real option) list" where
  "resample_D stat u =
     (case u of
        [] \<Rightarrow> []
      | (t0, _) # _ \<Rightarrow> map (\<lambda>d. (d, stat (bucket d u))) [day_of t0 .. day_of (fst (last u))])"

text \<open>
  Lines 1258 to 1269 of filter_rtklib_solutions:
  \<open>swe_gnss = u_clean - baseline_length\<close>, the index moved by 18 seconds, then
  \<open>resample('D').median()\<close> and \<open>resample('D').std()\<close>.
\<close>

definition swe_gnss :: "real \<Rightarrow> series \<Rightarrow> series" where
  "swe_gnss baseline_length u_clean = map (\<lambda>(t, v). (t + 18, v - baseline_length)) u_clean"

definition swe_gnss_daily :: "series \<Rightarrow> (int \<times> real option) list" where
  "swe_gnss_daily swe = resample_D median swe"

definition std_gnss_daily :: "series \<Rightarrow> (int \<times> real option) list" where
  "std_gnss_daily swe = resample_D std swe"

text \<open>
  resample_gnss works on data frames: a row holds one cell per column, NaN is \<open>None\<close>.
  \<open>resample(interval).median()\<close> takes the median of each column over the cells of the
  bucket that are not NaN; \<open>dropna()\<close> removes every row with a NaN cell. The interval is
  in seconds (\<open>'D'\<close> is 86400). A frame that is \<open>None\<close> leaves its result unbound, and
  the \<open>return\<close> raises.
\<close>

type_synonym frame = "(time \<times> real option list) list"

definition frame_bucket :: "int \<Rightarrow> int \<Rightarrow> frame \<Rightarrow> real option list list" where
  "frame_bucket interval d f = map snd (filter (\<lambda>(t, _). t div interval = d) f)"

definition column :: "nat \<Rightarrow> real option list list \<Rightarrow> real list" where
  "column k rows =
     concat (map (\<lambda>r. if k < length r then (case r ! k of None \<Rightarrow> [] | Some v \<Rightarrow> [v]) else []) rows)"

definition resample_median :: "int \<Rightarrow> frame \<Rightarrow> (int \<times> real option list) list" where
  "resample_median interval f =
     (case f of
        [] \<Rightarrow> []
      | (t0, r0) # _ \<Rightarrow>
          map (\<lambda>d. (d, map (\<lambda>k. median (column k (frame_bucket interval d f))) [0..<length r0]))
            [t0 div interval .. fst (last f) div interval])"

definition dropna :: "(int \<times> real option list) list \<Rightarrow> (int \<times> real option list) list" where
  "dropna rows = filter (\<lambda>(_, r). None \<notin> set r) rows"

datatype name_error = UnboundLocalError

definition resample_gnss ::
  "frame option \<Rightarrow> frame option \<Rightarrow> int
     \<Rightarrow> name_error + (int \<times> real option list) list \<times> (int \<times> real option list) list" where
  "resample_gnss gnss_leica gnss_emlid interval =
     (case gnss_leica of
        None \<Rightarrow> Inl UnboundLocalError
      | Some l \<Rightarrow>
          (case gnss_emlid of
             None \<Rightarrow> Inl UnboundLocalError
           | Some e \<Rightarrow>
               Inr (dropna (resample_median interval l), dropna (resample_median interval e))))"

section \<open>Float values with infinities\<close>

text \<open>
  Where the code divides, a float64 is a real number, an infinity or NaN. Rounding,
  overflow and the sign of zero are not modelled: zero is positive zero.
\<close>

datatype fval = Fin real | PInf | NInf | NaN

definition inf_signed :: "real \<Rightarrow> fval" where
  "inf_signed s = (if s > 0 then PInf else if s < 0 then NInf else NaN)"

fun fmul :: "fval \<Rightarrow> fval \<Rightarrow> fval" where
  "fmul (Fin a) (Fin b) = Fin (a * b)"
| "fmul NaN _ = NaN"
| "fmul _ NaN = NaN"
| "fmul (Fin a) PInf = inf_signed a"
| "fmul (Fin a) NInf = inf_signed (- a)"
| "fmul PInf (Fin b) = inf_signed b"
| "fmul NInf (Fin b) = inf_signed (- b)"
| "fmul PInf PInf = PInf"
| "fmul PInf NInf = NInf"
| "fmul NInf PInf = NInf"
| "fmul NInf NInf = PInf"

fun fdiv :: "fval \<Rightarrow> fval \<Rightarrow> fval" where
  "fdiv (Fin a) (Fin b) = (if b = 0 then inf_signed a else Fin (a / b))"
| "fdiv NaN _ = NaN"
| "fdiv _ NaN = NaN"
| "fdiv (Fin a) PInf = Fin 0"
| "fdiv (Fin a) NInf = Fin 0"
| "fdiv PInf (Fin b) = (if b \<ge> 0 then PInf else NInf)"
| "fdiv NInf (Fin b) = (if b \<ge> 0 then NInf else PInf)"
| "fdiv PInf PInf = NaN"
| "fdiv PInf NInf = NaN"
| "fdiv NInf PInf = NaN"
| "fdiv NInf NInf = NaN"

fun fadd :: "fval \<Rightarrow> fval \<Rightarrow> fval" where
  "fadd (Fin a) (Fin b) = Fin (a + b)"
| "fadd NaN _ = NaN"
| "fadd _ NaN = NaN"
| "fadd PInf NInf = NaN"
| "fadd NInf PInf = NaN"
| "fadd PInf _ = PInf"
| "fadd _ PInf = PInf"
| "fadd NInf _ = NInf"
| "fadd _ NInf = NInf"

fun fsqrt :: "fval \<Rightarrow> fval" where
  "fsqrt (Fin a) = (if a \<ge> 0 then Fin (sqrt a) else NaN)"
| "fsqrt PInf = PInf"
| "fsqrt NInf = NaN"
| "fsqrt NaN = NaN"

fun flt :: "fval \<Rightarrow> real \<Rightarrow> bool" where
  "flt (Fin a) c = (a < c)"
| "flt NInf c = True"
| "flt PInf c = False"
| "flt NaN c = False"

fun fge :: "fval \<Rightarrow> real \<Rightarrow> bool" where
  "fge (Fin a) c = (a \<ge> c)"
| "fge PInf c = True"
| "fge NInf c = False"
| "fge NaN c = False"

section \<open>Density from mass and height (convert_swesh2density)\<close>

text \<open>
  \<open>(swe * 1000).divide(sh, axis=0)\<close> aligns the two series on the sorted union of
  their labels; a label missing on one side gives NaN. \<open>dropna()\<close> removes the NaN
  rows, and the last line keeps the rows that are neither below 50 nor at or above 830.
\<close>

type_synonym fseries = "(time \<times> fval) list"

definition union_index :: "fseries \<Rightarrow> fseries \<Rightarrow> time list" where
  "union_index swe sh = sort (remdups (map fst swe @ map fst sh))"

definition divide_s :: "fseries \<Rightarrow> fseries \<Rightarrow> fseries" where
  "divide_s swe sh =
     map (\<lambda>t. (t, case (map_of swe t, map_of sh t) of
                    (Some m, Some h) \<Rightarrow> fdiv (fmul m (Fin 1000)) h
                  | _ \<Rightarrow> NaN))
       (union_index swe sh)"

definition dropna_s :: "fseries \<Rightarrow> fseries" where
  "dropna_s s = filter (\<lambda>(_, v). v \<noteq> NaN) s"

definition convert_swesh2density :: "fseries \<Rightarrow> fseries \<Rightarrow> fseries" where
  "convert_swesh2density swe sh =
     (let density = dropna_s (divide_s swe sh);
          density_fil = density
      in filter (\<lambda>(_, d). \<not> (flt d 50 \<or> fge d 830)) density_fil)"

section \<open>Error propagation (func_err_prop_single, func_err_prop)\<close>

text \<open>\<open>np.linspace(start, stop, num)\<close>: \<open>num\<close> evenly spaced samples, both ends included.\<close>

definition linspace :: "real \<Rightarrow> real \<Rightarrow> nat \<Rightarrow> real list" where
  "linspace start stop num =
     map (\<lambda>i. start + real i * ((stop - start) / real (num - 1))) [0..<num]"

definition func_exp :: "real \<Rightarrow> real \<Rightarrow> real \<Rightarrow> real \<Rightarrow> real" where
  "func_exp x a b c = a * exp (b * x) + c"

text \<open>
  A row of the frame returned by func_err_prop_single: the height (also the index of the
  row), the relative and the absolute error. The column names, built from the
  uncertainties, are left out.
\<close>

definition err_row :: "real \<Rightarrow> real \<Rightarrow> real \<Rightarrow> real \<Rightarrow> real \<Rightarrow> real \<Rightarrow> real \<times> fval \<times> fval" where
  "err_row a b c m_err h_err h =
     (let m = Fin (func_exp h a b c);
          density = fdiv m (Fin h);
          rel_err = fsqrt (fadd (fmul (fdiv (Fin m_err) m) (fdiv (Fin m_err) m))
                                (fmul (fdiv (Fin h_err) (Fin h)) (fdiv (Fin h_err) (Fin h))));
          abs_err = fmul rel_err density
      in (h, rel_err, abs_err))"

definition func_err_prop_single ::
  "real \<Rightarrow> real \<Rightarrow> real \<Rightarrow> real \<Rightarrow> real \<Rightarrow> (real \<times> fval \<times> fval) list" where
  "func_err_prop_single a b c m_err h_err = map (err_row a b c m_err h_err) (linspace 0 10 1001)"

text \<open>
  \<open>pd.concat([error1, error2, error3, error4], axis=1)\<close>: the four frames have the same
  index, so the rows are joined side by side.
\<close>

definition func_err_prop ::
  "real \<Rightarrow> real \<Rightarrow> real \<Rightarrow> real \<Rightarrow> real \<Rightarrow> real \<Rightarrow> real \<Rightarrow> real \<Rightarrow> real \<Rightarrow> real \<Rightarrow> real
     \<Rightarrow> ((real \<times> fval \<times> fval) \<times> (real \<times> fval \<times> fval) \<times> (real \<times> fval \<times> fval) \<times> (real \<times> fval \<times> fval)) list" where
  "func_err_prop a b c m_err1 m_err2 m_err3 m_err4 h_err1 h_err2 h_err3 h_err4 =
     (let error1 = func_err_prop_single a b c m_err1 h_err1;
          error2 = func_err_prop_single a b c m_err2 h_err2;
          error3 = func_err_prop_single a b c m_err3 h_err3;
          error4 = func_err_prop_single a b c m_err4 h_err4
      in zip error1 (zip error2 (zip error3 error4)))"

text \<open>
  The formulas of the specification, over the reals:
  \<open>rel_err(h) = sqrt((\<sigma>_m / mass(h))\<^sup>2 + (\<sigma>_h / h)\<^sup>2)\<close> and
  \<open>abs_err(h) = rel_err(h) \<cdot> density(h)\<close> with \<open>density(h) = mass(h) / h\<close>.
\<close>

definition spec_rel_err :: "real \<Rightarrow> real \<Rightarrow> real \<Rightarrow> real \<Rightarrow> real" where
  "spec_rel_err sigma_m sigma_h mass h = sqrt ((sigma_m / mass)\<^sup>2 + (sigma_h / h)\<^sup>2)"

definition spec_abs_err :: "real \<Rightarrow> real \<Rightarrow> real \<Rightarrow> real \<Rightarrow> real" where
  "spec_abs_err sigma_m sigma_h mass h = spec_rel_err sigma_m sigma_h mass h * (mass / h)"

section \<open>Curve fit (exponential_regression)\<close>

text \<open>
  \<open>scipy.optimize.curve_fit\<close> is not part of the repository: it is a parameter of the
  model. It takes the model function, the data, the start values and the optional
  weights, and either raises (\<open>Inl\<close>) or returns the parameters and their covariance.
  \<open>exponential_regression\<close> has no \<open>try\<close>: what \<open>curve_fit\<close> raises reaches
  the caller. The printing and \<open>calculate_stats\<close>, whose result is not used, are left
  out.
\<close>

datatype model = Func_exp | Func_exp2 | Func_exp3

datatype fit_error = RuntimeError | TypeError | ValueError | FitIndexError

type_synonym curve_fit =
  "model \<Rightarrow> real list \<Rightarrow> real list \<Rightarrow> real list \<Rightarrow> real list option
     \<Rightarrow> fit_error + real list \<times> real list list"

text \<open>The value \<open>[x_data, fit, popt]\<close>, or \<open>[0, 0, 0]\<close>.\<close>

datatype fit_result = Fit "real list" "fval list" "real list" | Zeros

text \<open>\<open>func(x_data, *popt)\<close>: a TypeError when the number of parameters is wrong.\<close>

definition apply_model :: "model \<Rightarrow> real list \<Rightarrow> real list \<Rightarrow> fit_error + fval list" where
  "apply_model f x_data popt =
     (case (f, popt) of
        (Func_exp, [a, b, c]) \<Rightarrow> Inr (map (\<lambda>x. Fin (func_exp x a b c)) x_data)
      | (Func_exp2, [a, b]) \<Rightarrow> Inr (map (\<lambda>x. Fin (a * exp (b * x))) x_data)
      | (Func_exp3, [s]) \<Rightarrow> Inr (map (\<lambda>x. fdiv (Fin s) (fsqrt (Fin x))) x_data)
      | _ \<Rightarrow> Inl TypeError)"

definition fit_with ::
  "curve_fit \<Rightarrow> model \<Rightarrow> real list \<Rightarrow> real list \<Rightarrow> real list \<Rightarrow> real list option
     \<Rightarrow> fit_error + fit_result" where
  "fit_with curve_fit f x_data y_data guess sigma =
     (case curve_fit f x_data y_data guess sigma of
        Inl e \<Rightarrow> Inl e
      | Inr (popt, pcov) \<Rightarrow>
          (case apply_model f x_data popt of
             Inl e \<Rightarrow> Inl e
           | Inr fit \<Rightarrow> Inr (Fit x_data fit popt)))"



section \<open>Properties of the discontinuity correction\<close>

subsection \<open>Masks over the first difference\<close>

lemma mask_rows_subseq: "subseq (mask_rows u m) u"
proof (induction u arbitrary: m)
  case Nil
  then show ?case by (simp add: mask_rows_def)
next
  case (Cons x u)
  show ?case
  proof (cases m)
    case Nil
    then show ?thesis by (simp add: mask_rows_def)
  next
    case (Cons b bs)
    with Cons.IH [of bs] show ?thesis by (cases b) (auto simp: mask_rows_def)
  qed
qed

lemma mask_rows_set: "set (mask_rows u m) \<subseteq> set u"
  by (auto simp: mask_rows_def dest: set_zip_leftD)

lemma mask_rows_diffs_from:
  "mask_rows r (map P (diffs_from p (map snd r))) = pick_from P p r"
  by (induction r arbitrary: p) (auto simp: mask_rows_def)

lemma mask_rows_Cons:
  "mask_rows ((t, v) # r) (map P (diff_s ((t, v) # r))) =
     (if P None then [(t, v)] else []) @ pick_from P v r"
  using mask_rows_diffs_from [of r P v] by (simp add: mask_rows_def diff_s_def)

lemma gnssir_jump_Nil: "gnssir_jump [] = []"
  by (simp add: gnssir_jump_def mask_rows_def)

lemma gnssir_jump_Cons: "gnssir_jump ((t, v) # r) = pick_from (\<lambda>d. gt_nan d 2500) v r"
  by (simp add: gnssir_jump_def mask_rows_Cons gt_nan_def)

lemma rtklib_jump_Nil: "rtklib_jump [] = []"
  by (simp add: rtklib_jump_def mask_rows_def)

lemma rtklib_jump_Cons: "rtklib_jump ((t, v) # r) = pick_from (\<lambda>d. lt_nan d (- 1000)) v r"
  by (simp add: rtklib_jump_def mask_rows_Cons lt_nan_def)

lemma pick_from_append:
  "pick_from P p (xs @ (s, b) # r) = pick_from P p (xs @ [(s, b)]) @ pick_from P b r"
  by (induction xs arbitrary: p) auto

lemma pick_from_shift:
  "pick_from P (p - c) (map (\<lambda>(t, v). (t, v - c)) r) =
     map (\<lambda>(t, v). (t, v - c)) (pick_from P p r)"
  by (induction r arbitrary: p) auto

lemma pick_from_set: "set (pick_from P p r) \<subseteq> set r"
  by (induction P p r rule: pick_from.induct) auto

lemma pick_from_empty_iff:
  "pick_from P p r = [] \<longleftrightarrow> (\<forall>d \<in> set (diffs_from p (map snd r)). \<not> P d)"
  by (induction P p r rule: pick_from.induct) auto

lemma gnssir_jump_append:
  "gnssir_jump (xs @ (s, b) # r) =
     gnssir_jump (xs @ [(s, b)]) @ pick_from (\<lambda>d. gt_nan d 2500) b r"
proof (cases xs)
  case Nil
  then show ?thesis by (simp add: gnssir_jump_Cons)
next
  case (Cons x xs')
  obtain t v where x: "x = (t, v)" by (cases x)
  show ?thesis unfolding Cons x
    by (simp add: gnssir_jump_Cons pick_from_append [of _ _ xs' s b r])
qed

lemma rtklib_jump_append:
  "rtklib_jump (xs @ (s, b) # r) =
     rtklib_jump (xs @ [(s, b)]) @ pick_from (\<lambda>d. lt_nan d (- 1000)) b r"
proof (cases xs)
  case Nil
  then show ?thesis by (simp add: rtklib_jump_Cons)
next
  case (Cons x xs')
  obtain t v where x: "x = (t, v)" by (cases x)
  show ?thesis unfolding Cons x
    by (simp add: rtklib_jump_Cons pick_from_append [of _ _ xs' s b r])
qed

subsection \<open>Label selections on a strictly increasing index\<close>

lemma strict_index_split:
  assumes "strict_index (xs @ (s, b) # (t, a) # ys)"
  shows "\<forall>x \<in> set xs. fst x < s" and "s < t" and "\<forall>y \<in> set ys. t < fst y"
  using assms by (auto simp: strict_index_def sorted_wrt_append)

lemma filter_ge_split:
  assumes "strict_index (xs @ (s, b) # (t, a) # ys)"
  shows "filter (\<lambda>(t', _). t' \<ge> t) (xs @ (s, b) # (t, a) # ys) = (t, a) # ys"
proof -
  note s = strict_index_split [OF assms]
  have "filter (\<lambda>(t', _). t' \<ge> t) xs = []" using s(1,2) by (auto simp: filter_empty_conv)
  moreover have "filter (\<lambda>(t', _). t' \<ge> t) ys = ys" using s(3) by (auto simp: filter_id_conv)
  ultimately show ?thesis using s(2) by simp
qed

lemma filter_not_ge_split:
  assumes "strict_index (xs @ (s, b) # (t, a) # ys)"
  shows "filter (\<lambda>(t', _). \<not> t' \<ge> t) (xs @ (s, b) # (t, a) # ys) = xs @ [(s, b)]"
proof -
  note s = strict_index_split [OF assms]
  have "filter (\<lambda>(t', _). \<not> t' \<ge> t) xs = xs" using s(1,2) by (auto simp: filter_id_conv)
  moreover have "filter (\<lambda>(t', _). \<not> t' \<ge> t) ys = []" using s(3) by (auto simp: filter_empty_conv)
  ultimately show ?thesis using s(2) by simp
qed

lemma filter_le_split:
  assumes "strict_index (xs @ (s, b) # (t, a) # ys)"
  shows "filter (\<lambda>(t', _). t' \<le> t) (xs @ (s, b) # (t, a) # ys) = xs @ [(s, b), (t, a)]"
proof -
  note s = strict_index_split [OF assms]
  have "filter (\<lambda>(t', _). t' \<le> t) xs = xs" using s(1,2) by (auto simp: filter_id_conv)
  moreover have "filter (\<lambda>(t', _). t' \<le> t) ys = []" using s(3) by (auto simp: filter_empty_conv)
  ultimately show ?thesis using s(2) by simp
qed

lemma at_label_split:
  assumes "strict_index (xs @ (s, b) # (t, a) # ys)"
  shows "at_label (xs @ (s, b) # (t, a) # ys) t = Inr a"
proof -
  note s = strict_index_split [OF assms]
  have "t \<notin> fst ` set xs" using s(1,2) by auto
  then have "map_of xs t = None" by (simp add: map_of_eq_None_iff)
  then show ?thesis using s(2) by (simp add: at_label_def map_add_def)
qed

lemma before_label_split:
  assumes "strict_index (xs @ (s, b) # (t, a) # ys)"
  shows "before_label (xs @ (s, b) # (t, a) # ys) t = Inr b"
proof -
  have "(xs @ [(s, b), (t, a)]) ! length xs = (s, b)" by (simp add: nth_append)
  then show ?thesis
    unfolding before_label_def filter_le_split [OF assms] by (simp add: Let_def)
qed

lemma jump_value_split:
  assumes "strict_index (xs @ (s, b) # (t, a) # ys)"
  shows "jump_value (xs @ (s, b) # (t, a) # ys) t = Inr (a - b)"
  by (simp add: jump_value_def at_label_split [OF assms] before_label_split [OF assms])

lemma shift_after_split:
  assumes "strict_index (xs @ (s, b) # (t, a) # ys)"
  shows "shift_after t c (xs @ (s, b) # (t, a) # ys) =
           xs @ (s, b) # map (\<lambda>(t', v). (t', v - c)) ((t, a) # ys)"
  unfolding shift_after_def filter_ge_split [OF assms] filter_not_ge_split [OF assms] by simp

subsection \<open>A series with a single jump\<close>

lemma shifted_no_jump:
  assumes "pick_from P a ys = []" and "\<not> P (Some 0)"
  shows "pick_from P b (map (\<lambda>(t', v). (t', v - (a - b))) ((t, a) # ys)) = []"
proof -
  have "pick_from P (a - (a - b)) (map (\<lambda>(t', v). (t', v - (a - b))) ys) = []"
    unfolding pick_from_shift using assms(1) by simp
  then show ?thesis using assms(2) by simp
qed

lemma gnssir_single_jump:
  assumes si: "strict_index (xs @ (s, b) # (t, a) # ys)"
    and j: "a - b > 2500"
    and nb: "gnssir_jump (xs @ [(s, b)]) = []"
    and na: "gnssir_jump ((t, a) # ys) = []"
  shows "filter_gnssir_jumps (xs @ (s, b) # (t, a) # ys) =
           Some (Inr (xs @ (s, b) # map (\<lambda>(t', v). (t', v - (a - b))) ((t, a) # ys)))"
proof -
  define u where "u = xs @ (s, b) # (t, a) # ys"
  define r' where "r' = map (\<lambda>(t', v). (t', v - (a - b))) ((t, a) # ys)"
  define u' where "u' = xs @ (s, b) # r'"
  let ?P = "\<lambda>d. gt_nan d 2500"
  have pa: "pick_from ?P a ys = []" using na by (simp add: gnssir_jump_Cons)
  have "gnssir_jump u = gnssir_jump (xs @ [(s, b)]) @ pick_from ?P b ((t, a) # ys)"
    unfolding u_def by (rule gnssir_jump_append)
  then have j1: "gnssir_jump u = [(t, a)]"
    using j nb pa by (simp add: gt_nan_def)
  have "gnssir_jump u' = gnssir_jump (xs @ [(s, b)]) @ pick_from ?P b r'"
    unfolding u'_def by (rule gnssir_jump_append)
  moreover have "pick_from ?P b r' = []"
    unfolding r'_def by (rule shifted_no_jump [OF pa]) (simp add: gt_nan_def)
  ultimately have j2: "gnssir_jump u' = []" using nb by simp
  have sh: "shift_after t (a - b) u = u'"
    unfolding u_def u'_def r'_def by (rule shift_after_split [OF si])
  have jv: "jump_value u t = Inr (a - b)"
    unfolding u_def by (rule jump_value_split [OF si])
  have l2: "gnssir_jump_loop (a - b) u' = Some u'"
    by (subst gnssir_jump_loop.simps) (simp add: j2 first_index_def)
  have l1: "gnssir_jump_loop (a - b) u = Some u'"
    by (subst gnssir_jump_loop.simps) (simp add: j1 first_index_def sh l2)
  have "filter_gnssir_jumps u = Some (Inr u')"
    by (simp add: filter_gnssir_jumps_def j1 first_index_def jv l1)
  then show ?thesis unfolding u_def u'_def r'_def .
qed


lemma rtklib_single_jump:
  assumes si: "strict_index (xs @ (s, b) # (t, a) # ys)"
    and j: "a - b < - 1000"
    and nb: "rtklib_jump (xs @ [(s, b)]) = []"
    and na: "rtklib_jump ((t, a) # ys) = []"
  shows "filter_rtklib_jumps (xs @ (s, b) # (t, a) # ys) =
           Some (Inr (xs @ (s, b) # map (\<lambda>(t', v). (t', v - (a - b))) ((t, a) # ys)))"
proof -
  define u where "u = xs @ (s, b) # (t, a) # ys"
  define r' where "r' = map (\<lambda>(t', v). (t', v - (a - b))) ((t, a) # ys)"
  define u' where "u' = xs @ (s, b) # r'"
  let ?P = "\<lambda>d. lt_nan d (- 1000)"
  have pa: "pick_from ?P a ys = []" using na by (simp add: rtklib_jump_Cons)
  have "rtklib_jump u = rtklib_jump (xs @ [(s, b)]) @ pick_from ?P b ((t, a) # ys)"
    unfolding u_def by (rule rtklib_jump_append)
  then have j1: "rtklib_jump u = [(t, a)]"
    using j nb pa by (simp add: lt_nan_def)
  have "rtklib_jump u' = rtklib_jump (xs @ [(s, b)]) @ pick_from ?P b r'"
    unfolding u'_def by (rule rtklib_jump_append)
  moreover have "pick_from ?P b r' = []"
    unfolding r'_def by (rule shifted_no_jump [OF pa]) (simp add: lt_nan_def)
  ultimately have j2: "rtklib_jump u' = []" using nb by simp
  have sh: "shift_after t (a - b) u = u'"
    unfolding u_def u'_def r'_def by (rule shift_after_split [OF si])
  have jv: "jump_value u t = Inr (a - b)"
    unfolding u_def by (rule jump_value_split [OF si])
  have l2: "rtklib_jump_loop (a - b) u' = Some u'"
    by (subst rtklib_jump_loop.simps) (simp add: j2 first_index_def)
  have l1: "rtklib_jump_loop (a - b) u = Some u'"
    by (subst rtklib_jump_loop.simps) (simp add: j1 first_index_def sh l2)
  have "filter_rtklib_jumps u = Some (Inr u')"
    by (simp add: filter_rtklib_jumps_def j1 first_index_def jv l1)
  then show ?thesis unfolding u_def u'_def r'_def .
qed



lemmas jump_eval =
  gnssir_jump_def rtklib_jump_def mask_rows_def diff_s_def gt_nan_def lt_nan_def
  first_index_def jump_value_def at_label_def before_label_def shift_after_def




subsection \<open>A series without a jump, and the series the loop returns\<close>

lemma gnssir_jump_empty_iff:
  "gnssir_jump u = [] \<longleftrightarrow> (\<forall>d \<in> set (diff_s u). \<not> gt_nan d 2500)"
proof (cases u)
  case Nil
  then show ?thesis by (simp add: gnssir_jump_Nil diff_s_def)
next
  case (Cons x r)
  obtain t v where x: "x = (t, v)" by (cases x)
  show ?thesis unfolding Cons x
    by (simp add: gnssir_jump_Cons pick_from_empty_iff diff_s_def gt_nan_def)
qed

lemma rtklib_jump_empty_iff:
  "rtklib_jump u = [] \<longleftrightarrow> (\<forall>d \<in> set (diff_s u). \<not> lt_nan d (- 1000))"
proof (cases u)
  case Nil
  then show ?thesis by (simp add: rtklib_jump_Nil diff_s_def)
next
  case (Cons x r)
  obtain t v where x: "x = (t, v)" by (cases x)
  show ?thesis unfolding Cons x
    by (simp add: rtklib_jump_Cons pick_from_empty_iff diff_s_def lt_nan_def)
qed

lemma gnssir_no_jump_raises:
  "gnssir_jump u = [] \<Longrightarrow> filter_gnssir_jumps u = Some (Inl IndexError)"
  by (simp add: filter_gnssir_jumps_def first_index_def)

lemma rtklib_no_jump_raises:
  "rtklib_jump u = [] \<Longrightarrow> filter_rtklib_jumps u = Some (Inl IndexError)"
  by (simp add: filter_rtklib_jumps_def first_index_def)

lemma gnssir_loop_exit:
  assumes "gnssir_jump_loop jv u = Some v"
  shows "gnssir_jump v = []"
proof (rule gnssir_jump_loop.raw_induct [where P = "\<lambda>_ _ r. gnssir_jump r = []", OF _ assms])
  fix loop :: "real \<Rightarrow> series \<Rightarrow> series option" and c w r
  assume ih: "\<And>c' w' r'. loop c' w' = Some r' \<Longrightarrow> gnssir_jump r' = []"
    and step: "(case first_index (gnssir_jump w) of Inl _ \<Rightarrow> Some w
                | Inr t \<Rightarrow> loop c (shift_after t c w)) = Some r"
  show "gnssir_jump r = []"
  proof (cases "gnssir_jump w")
    case Nil
    with step show ?thesis by (simp add: first_index_def)
  next
    case (Cons x xs)
    with step ih show ?thesis by (auto simp: first_index_def split: prod.splits)
  qed
qed

lemma rtklib_loop_exit:
  assumes "rtklib_jump_loop jv u = Some v"
  shows "rtklib_jump v = []"
proof (rule rtklib_jump_loop.raw_induct [where P = "\<lambda>_ _ r. rtklib_jump r = []", OF _ assms])
  fix loop :: "real \<Rightarrow> series \<Rightarrow> series option" and c w r
  assume ih: "\<And>c' w' r'. loop c' w' = Some r' \<Longrightarrow> rtklib_jump r' = []"
    and step: "(case first_index (rtklib_jump w) of Inl _ \<Rightarrow> Some w
                | Inr t \<Rightarrow> loop c (shift_after t c w)) = Some r"
  show "rtklib_jump r = []"
  proof (cases "rtklib_jump w")
    case Nil
    with step show ?thesis by (simp add: first_index_def)
  next
    case (Cons x xs)
    with step ih show ?thesis by (auto simp: first_index_def split: prod.splits)
  qed
qed

lemma gnssir_result_no_jump:
  "filter_gnssir_jumps u = Some (Inr v) \<Longrightarrow> gnssir_jump v = []"
  by (auto simp: filter_gnssir_jumps_def split: sum.splits dest: gnssir_loop_exit)

lemma rtklib_result_no_jump:
  "filter_rtklib_jumps u = Some (Inr v) \<Longrightarrow> rtklib_jump v = []"
  by (auto simp: filter_rtklib_jumps_def split: sum.splits dest: rtklib_loop_exit)

lemma gnssir_result_had_jump:
  "filter_gnssir_jumps u = Some (Inr v) \<Longrightarrow> gnssir_jump u \<noteq> []"
  by (auto simp: filter_gnssir_jumps_def first_index_def)

lemma rtklib_result_had_jump:
  "filter_rtklib_jumps u = Some (Inr v) \<Longrightarrow> rtklib_jump u \<noteq> []"
  by (auto simp: filter_rtklib_jumps_def first_index_def)

subsection \<open>The whole baseline correction on a series without a fall\<close>

lemma sorted_filter_split:
  fixes xs :: "int list"
  assumes "sorted xs"
  shows "filter (\<lambda>x. \<not> t \<le> x) xs @ filter (\<lambda>x. t \<le> x) xs = xs"
  using assms
proof (induction xs)
  case Nil
  then show ?case by simp
next
  case (Cons x xs)
  show ?case
  proof (cases "t \<le> x")
    case True
    with Cons.prems have "\<forall>y \<in> set xs. t \<le> y" by auto
    then have "filter (\<lambda>x. \<not> t \<le> x) xs = []" "filter (\<lambda>x. t \<le> x) xs = xs"
      by (auto simp: filter_empty_conv filter_id_conv)
    with True show ?thesis by simp
  next
    case False
    with Cons show ?thesis by simp
  qed
qed

lemma map_fst_filter:
  "map fst (filter (\<lambda>(t', _). P t') u) = filter P (map fst u)"
  by (induction u) auto

lemma map_fst_shift: "map fst (map (\<lambda>(t', v). (t', v - c)) r) = map fst (r :: series)"
  by (induction r) auto

lemma shift_after_index:
  assumes "strict_index u"
  shows "map fst (shift_after t c u) = map fst u"
proof -
  have s: "sorted (map fst u)"
    using assms by (simp add: strict_index_def strict_sorted_iff)
  have "map fst (shift_after t c u) =
      map fst (filter (\<lambda>(t', _). \<not> t \<le> t') u)
      @ map fst (map (\<lambda>(t', v). (t', v - c)) (filter (\<lambda>(t', _). t \<le> t') u))"
    by (simp only: shift_after_def map_append)
  also have "\<dots> = map fst (filter (\<lambda>(t', _). \<not> t \<le> t') u)
      @ map fst (filter (\<lambda>(t', _). t \<le> t') u)"
    by (simp only: map_fst_shift)
  also have "\<dots> = filter (\<lambda>x. \<not> t \<le> x) (map fst u) @ filter (\<lambda>x. t \<le> x) (map fst u)"
    by (simp only: map_fst_filter)
  also have "\<dots> = map fst u" by (rule sorted_filter_split [OF s])
  finally show ?thesis .
qed

lemma shift_after_strict: "strict_index u \<Longrightarrow> strict_index (shift_after t c u)"
  using shift_after_index [of u t c] by (simp add: strict_index_def)

lemma rtklib_loop_strict:
  assumes "rtklib_jump_loop jv u = Some v"
  shows "strict_index u \<longrightarrow> strict_index v"
proof (rule rtklib_jump_loop.raw_induct
    [where P = "\<lambda>_ w r. strict_index w \<longrightarrow> strict_index r", OF _ assms])
  fix loop :: "real \<Rightarrow> series \<Rightarrow> series option" and c w r
  assume ih: "\<And>c' w' r'. loop c' w' = Some r' \<Longrightarrow> strict_index w' \<longrightarrow> strict_index r'"
    and step: "(case first_index (rtklib_jump w) of Inl _ \<Rightarrow> Some w
                | Inr t \<Rightarrow> loop c (shift_after t c w)) = Some r"
  show "strict_index w \<longrightarrow> strict_index r"
  proof (cases "rtklib_jump w")
    case Nil
    with step show ?thesis by (simp add: first_index_def)
  next
    case (Cons x xs)
    with step ih show ?thesis
      by (auto simp: first_index_def split: prod.splits dest: shift_after_strict)
  qed
qed

lemma rtklib_jumps_strict:
  "filter_rtklib_jumps u = Some (Inr v) \<Longrightarrow> strict_index u \<Longrightarrow> strict_index v"
  using rtklib_loop_strict
  by (auto simp: filter_rtklib_jumps_def split: sum.splits)

lemma drop_label_strict: "strict_index u \<Longrightarrow> strict_index (drop_label t u)"
proof -
  assume "strict_index u"
  then have "sorted_wrt (<) (filter (\<lambda>x. x \<noteq> t) (map fst u))"
    unfolding strict_index_def by (rule sorted_wrt_filter)
  moreover have "map fst (drop_label t u) = filter (\<lambda>x. x \<noteq> t) (map fst u)"
    unfolding drop_label_def by (rule map_fst_filter)
  ultimately show ?thesis by (simp add: strict_index_def)
qed

lemma drop_pos_strict:
  "drop_pos_outliers js u = Inr v \<Longrightarrow> strict_index u \<Longrightarrow> strict_index v"
proof (induction js u rule: drop_pos_outliers.induct)
  case (1 u)
  then show ?case by simp
next
  case (2 t x js u)
  then show ?case
    by (auto split: sum.splits if_splits dest: drop_label_strict)
qed

lemma drop_neg_strict:
  "drop_neg_outliers js u = Inr v \<Longrightarrow> strict_index u \<Longrightarrow> strict_index v"
proof (induction js u rule: drop_neg_outliers.induct)
  case (1 u)
  then show ?case by simp
next
  case (2 t x js u)
  then show ?case
    by (auto split: sum.splits if_splits dest: drop_label_strict)
qed

lemma outliers_strict:
  "filter_rtklib_outliers u = Inr v \<Longrightarrow> strict_index u \<Longrightarrow> strict_index v"
  by (auto simp: filter_rtklib_outliers_def Let_def split: sum.splits
        dest: drop_pos_strict drop_neg_strict)

lemma next_line_error: "next_line u t = Inl e \<Longrightarrow> e = IndexError"
  by (auto simp: next_line_def split: list.splits)

lemma next_no_fall:
  assumes si: "strict_index u" and nj: "rtklib_jump u = []"
    and m: "(t, v) \<in> set u" and n: "next_line u t = Inr n"
  shows "\<not> n < v - 1000"
proof -
  from m obtain xs ys where u: "u = xs @ (t, v) # ys" by (auto dest: split_list)
  from si have a: "\<forall>x \<in> set xs. fst x < t" and b: "\<forall>y \<in> set ys. t < fst y"
    unfolding u by (auto simp: strict_index_def sorted_wrt_append)
  have "filter (\<lambda>(t', _). t' > t) xs = []" using a by (auto simp: filter_empty_conv)
  moreover have "filter (\<lambda>(t', _). t' > t) ys = ys" using b by (auto simp: filter_id_conv)
  ultimately have f: "filter (\<lambda>(t', _). t' > t) u = ys" unfolding u by simp
  from n obtain t2 ys' where ys: "ys = (t2, n) # ys'"
    unfolding next_line_def f by (auto split: list.splits)
  have "rtklib_jump u = rtklib_jump (xs @ [(t, v)]) @ pick_from (\<lambda>d. lt_nan d (- 1000)) v ((t2, n) # ys')"
    unfolding u ys by (rule rtklib_jump_append)
  with nj have "\<not> lt_nan (Some (n - v)) (- 1000)" by (auto split: if_splits)
  then show ?thesis by (simp add: lt_nan_def)
qed

lemma drop_pos_on_flat:
  assumes "strict_index u" and "rtklib_jump u = []" and "set js \<subseteq> set u"
  shows "drop_pos_outliers js u = Inr u \<or> drop_pos_outliers js u = Inl IndexError"
  using assms(3)
proof (induction js)
  case Nil
  then show ?case by simp
next
  case (Cons j js)
  obtain t v where j: "j = (t, v)" by (cases j)
  from Cons.prems have m: "(t, v) \<in> set u" and sub: "set js \<subseteq> set u" by (auto simp: j)
  show ?case
  proof (cases "next_line u t")
    case (Inl e)
    then show ?thesis using next_line_error [OF Inl] by (simp add: j)
  next
    case (Inr n)
    from next_no_fall [OF assms(1,2) m Inr] Cons.IH [OF sub] Inr show ?thesis
      by (simp add: j)
  qed
qed

lemma rtklib_correct_no_jump:
  assumes "strict_index u" and "rtklib_jump u = []"
  shows "filter_rtklib_correct u = Some (Inl IndexError)"
proof -
  let ?js = "mask_rows u (map (\<lambda>d. gt_nan d 1000) (diff_s u))"
  have "set ?js \<subseteq> set u" by (rule mask_rows_set)
  from drop_pos_on_flat [OF assms this]
  show ?thesis
  proof
    assume p: "drop_pos_outliers ?js u = Inr u"
    have "filter_rtklib_outliers u = Inr u"
      using assms(2) by (simp add: filter_rtklib_outliers_def p rtklib_jump_def [symmetric])
    then show ?thesis
      using rtklib_no_jump_raises [OF assms(2)] by (simp add: filter_rtklib_correct_def)
  next
    assume "drop_pos_outliers ?js u = Inl IndexError"
    then show ?thesis by (simp add: filter_rtklib_correct_def filter_rtklib_outliers_def)
  qed
qed

lemma rtklib_correct_rerun:
  assumes "strict_index u" and "filter_rtklib_correct u = Some (Inr v)"
  shows "filter_rtklib_correct v = Some (Inl IndexError)"
proof -
  from assms(2) obtain u' where o: "filter_rtklib_outliers u = Inr u'"
    and j: "filter_rtklib_jumps u' = Some (Inr v)"
    by (auto simp: filter_rtklib_correct_def split: sum.splits)
  have "strict_index u'" by (rule outliers_strict [OF o assms(1)])
  then have "strict_index v" by (rule rtklib_jumps_strict [OF j])
  moreover have "rtklib_jump v = []" by (rule rtklib_result_no_jump [OF j])
  ultimately show ?thesis by (rule rtklib_correct_no_jump)
qed

text \<open>
  C5. The jump step reads the label and the magnitude of the first jump before the loop
  tests whether there is one. On a series with no consecutive difference above 2500 mm
  (reflector) or below -1000 mm (baseline) it raises IndexError instead of returning the
  series; it returns a series only when the input has such a difference. With the outlier
  pass before it, the baseline correction as a whole raises IndexError on every series with
  strictly increasing timestamps and no fall of more than 1000 mm.
\<close>

theorem jump_step_raises_without_jump:
  "((\<forall>d \<in> set (diff_s u). \<not> gt_nan d 2500) \<longrightarrow> filter_gnssir_jumps u = Some (Inl IndexError))
   \<and> ((\<forall>d \<in> set (diff_s u). \<not> lt_nan d (- 1000)) \<longrightarrow> filter_rtklib_jumps u = Some (Inl IndexError))
   \<and> (filter_gnssir_jumps u = Some (Inr v) \<longrightarrow> (\<exists>d \<in> set (diff_s u). gt_nan d 2500))
   \<and> (filter_rtklib_jumps u = Some (Inr v) \<longrightarrow> (\<exists>d \<in> set (diff_s u). lt_nan d (- 1000)))
   \<and> (strict_index u \<and> (\<forall>d \<in> set (diff_s u). \<not> lt_nan d (- 1000))
        \<longrightarrow> filter_rtklib_correct u = Some (Inl IndexError))"
  using gnssir_no_jump_raises [of u] rtklib_no_jump_raises [of u]
    gnssir_result_had_jump [of u v] rtklib_result_had_jump [of u v]
    gnssir_jump_empty_iff [of u] rtklib_jump_empty_iff [of u]
    rtklib_correct_no_jump [of u]
  by blast

text \<open>
  C4. The series the jump step returns has no jump left, so running the step again on its
  own result never returns that result unchanged: it raises IndexError, for the reflector
  and for the baseline series alike, and so does the baseline correction as a whole
  (outlier pass and jump step) on its own result.
\<close>

theorem rerun_raises:
  "(filter_gnssir_jumps u = Some (Inr v) \<longrightarrow> filter_gnssir_jumps v = Some (Inl IndexError))
   \<and> (filter_rtklib_jumps u = Some (Inr v) \<longrightarrow> filter_rtklib_jumps v = Some (Inl IndexError))
   \<and> (strict_index u \<and> filter_rtklib_correct u = Some (Inr v)
        \<longrightarrow> filter_rtklib_correct v = Some (Inl IndexError))"
  using gnssir_result_no_jump [of u v] rtklib_result_no_jump [of u v]
    gnssir_no_jump_raises [of v] rtklib_no_jump_raises [of v]
    rtklib_correct_rerun [of u v]
  by blast


subsection \<open>Runs on concrete series\<close>

lemma gnssir_example_run:
  "filter_gnssir_jumps [(0, 0), (1, 1), (2, 2), (3, 3), (4, 3003), (5, 3004), (6, 3005)] =
     Some (Inr [(0, 0), (1, 1), (2, 2), (3, 3), (4, 3), (5, 4), (6, 5)])"
proof -
  have "strict_index ([(0, 0), (1, 1), (2, 2)] @ (3, 3) # (4, 3003) # [(5, 3004), (6, 3005)])"
    by (simp add: strict_index_def)
  from gnssir_single_jump [OF this] show ?thesis by (simp add: jump_eval)
qed

lemma rtklib_example_run:
  "filter_rtklib_jumps [(0, 3000), (1, 3001), (2, 3002), (3, 3003), (4, 3), (5, 4), (6, 5)] =
     Some (Inr [(0, 3000), (1, 3001), (2, 3002), (3, 3003), (4, 3003), (5, 3004), (6, 3005)])"
proof -
  have "strict_index ([(0, 3000), (1, 3001), (2, 3002)] @ (3, 3003) # (4, 3) # [(5, 4), (6, 5)])"
    by (simp add: strict_index_def)
  from rtklib_single_jump [OF this] show ?thesis by (simp add: jump_eval)
qed

text \<open>
  A series without a jump raises; the two series with one jump of 3000 mm are corrected,
  and they do hold a difference beyond the threshold.
\<close>

theorem jump_step_raises_without_jump_witness:
  "diff_s [(0, 0), (1, 1)] = [None, Some 1]
   \<and> filter_gnssir_jumps [(0, 0), (1, 1)] = Some (Inl IndexError)
   \<and> filter_rtklib_jumps [(0, 0), (1, 1)] = Some (Inl IndexError)
   \<and> strict_index [(0, 0), (1, 1)]
   \<and> filter_rtklib_correct [(0, 0), (1, 1)] = Some (Inl IndexError)
   \<and> filter_gnssir_jumps [(0, 0), (1, 1), (2, 2), (3, 3), (4, 3003), (5, 3004), (6, 3005)] =
       Some (Inr [(0, 0), (1, 1), (2, 2), (3, 3), (4, 3), (5, 4), (6, 5)])
   \<and> (\<exists>d \<in> set (diff_s [(0, 0), (1, 1), (2, 2), (3, 3), (4, 3003), (5, 3004), (6, 3005)]).
         gt_nan d 2500)
   \<and> filter_rtklib_jumps [(0, 3000), (1, 3001), (2, 3002), (3, 3003), (4, 3), (5, 4), (6, 5)] =
       Some (Inr [(0, 3000), (1, 3001), (2, 3002), (3, 3003), (4, 3003), (5, 3004), (6, 3005)])
   \<and> (\<exists>d \<in> set (diff_s [(0, 3000), (1, 3001), (2, 3002), (3, 3003), (4, 3), (5, 4), (6, 5)]).
         lt_nan d (- 1000))"
proof -
  have h1: "\<forall>d \<in> set (diff_s [(0, 0), (1, 1)]). \<not> gt_nan d 2500"
    by (simp add: diff_s_def gt_nan_def)
  have h2: "\<forall>d \<in> set (diff_s [(0, 0), (1, 1)]). \<not> lt_nan d (- 1000)"
    by (simp add: diff_s_def lt_nan_def)
  note a = jump_step_raises_without_jump [of "[(0, 0), (1, 1)]" "[]"]
  note b = jump_step_raises_without_jump
    [of "[(0, 0), (1, 1), (2, 2), (3, 3), (4, 3003), (5, 3004), (6, 3005)]"
        "[(0, 0), (1, 1), (2, 2), (3, 3), (4, 3), (5, 4), (6, 5)]"]
  note c = jump_step_raises_without_jump
    [of "[(0, 3000), (1, 3001), (2, 3002), (3, 3003), (4, 3), (5, 4), (6, 5)]"
        "[(0, 3000), (1, 3001), (2, 3002), (3, 3003), (4, 3003), (5, 3004), (6, 3005)]"]
  have d: "diff_s [(0, 0), (1, 1)] = [None, Some 1]"
    by (simp add: diff_s_def)
  have si: "strict_index [(0, 0), (1, 1)]" by (simp add: strict_index_def)
  from a h1 h2 b c d si gnssir_example_run rtklib_example_run show ?thesis by blast
qed

text \<open>
  The corrected series 0, 1, 2, 3, 3, 4, 5 and 3000, ..., 3003, 3003, 3004, 3005 are
  results of the jump step, and the step raises on each of them.
\<close>

theorem rerun_raises_witness:
  "filter_gnssir_jumps [(0, 0), (1, 1), (2, 2), (3, 3), (4, 3003), (5, 3004), (6, 3005)] =
     Some (Inr [(0, 0), (1, 1), (2, 2), (3, 3), (4, 3), (5, 4), (6, 5)])
   \<and> filter_gnssir_jumps [(0, 0), (1, 1), (2, 2), (3, 3), (4, 3), (5, 4), (6, 5)] =
     Some (Inl IndexError)
   \<and> filter_rtklib_jumps [(0, 3000), (1, 3001), (2, 3002), (3, 3003), (4, 3), (5, 4), (6, 5)] =
     Some (Inr [(0, 3000), (1, 3001), (2, 3002), (3, 3003), (4, 3003), (5, 3004), (6, 3005)])
   \<and> filter_rtklib_jumps [(0, 3000), (1, 3001), (2, 3002), (3, 3003), (4, 3003), (5, 3004), (6, 3005)] =
     Some (Inl IndexError)
   \<and> strict_index [(0, 3000), (1, 3001), (2, 3002), (3, 3003), (4, 3), (5, 4), (6, 5)]
   \<and> filter_rtklib_correct [(0, 3000), (1, 3001), (2, 3002), (3, 3003), (4, 3), (5, 4), (6, 5)] =
     Some (Inr [(0, 3000), (1, 3001), (2, 3002), (3, 3003), (4, 3003), (5, 3004), (6, 3005)])
   \<and> filter_rtklib_correct [(0, 3000), (1, 3001), (2, 3002), (3, 3003), (4, 3003), (5, 3004), (6, 3005)] =
     Some (Inl IndexError)"
proof -
  have si: "strict_index [(0, 3000), (1, 3001), (2, 3002), (3, 3003), (4, 3), (5, 4), (6, 5)]"
    by (simp add: strict_index_def)
  have "filter_rtklib_outliers [(0, 3000), (1, 3001), (2, 3002), (3, 3003), (4, 3), (5, 4), (6, 5)] =
      Inr [(0, 3000), (1, 3001), (2, 3002), (3, 3003), (4, 3), (5, 4), (6, 5)]"
    by (simp add: filter_rtklib_outliers_def mask_rows_def diff_s_def gt_nan_def lt_nan_def
          next_line_def drop_label_def)
  then have full: "filter_rtklib_correct [(0, 3000), (1, 3001), (2, 3002), (3, 3003), (4, 3), (5, 4), (6, 5)] =
      Some (Inr [(0, 3000), (1, 3001), (2, 3002), (3, 3003), (4, 3003), (5, 3004), (6, 3005)])"
    by (simp add: filter_rtklib_correct_def rtklib_example_run)
  note a = rerun_raises
    [of "[(0, 0), (1, 1), (2, 2), (3, 3), (4, 3003), (5, 3004), (6, 3005)]"
        "[(0, 0), (1, 1), (2, 2), (3, 3), (4, 3), (5, 4), (6, 5)]"]
  note b = rerun_raises
    [of "[(0, 3000), (1, 3001), (2, 3002), (3, 3003), (4, 3), (5, 4), (6, 5)]"
        "[(0, 3000), (1, 3001), (2, 3002), (3, 3003), (4, 3003), (5, 3004), (6, 3005)]"]
  from a b si full gnssir_example_run rtklib_example_run show ?thesis by blast
qed

lemma gnssir_loop_step:
  "gnssir_jump u = (t, a) # js \<Longrightarrow>
     gnssir_jump_loop c u = gnssir_jump_loop c (shift_after t c u)"
  by (subst gnssir_jump_loop.simps) (simp add: first_index_def)

lemma gnssir_loop_stop: "gnssir_jump u = [] \<Longrightarrow> gnssir_jump_loop c u = Some u"
  by (subst gnssir_jump_loop.simps) (simp add: first_index_def)

lemma rtklib_loop_step:
  "rtklib_jump u = (t, a) # js \<Longrightarrow>
     rtklib_jump_loop c u = rtklib_jump_loop c (shift_after t c u)"
  by (subst rtklib_jump_loop.simps) (simp add: first_index_def)

lemma rtklib_loop_stop: "rtklib_jump u = [] \<Longrightarrow> rtklib_jump_loop c u = Some u"
  by (subst rtklib_jump_loop.simps) (simp add: first_index_def)

text \<open>
  C3. \<open>jump_val\<close> is computed once, before the loop, from the first jump; every pass of
  the loop subtracts that same value. Two jumps in immediate succession, of 3000 and 4000
  mm (reflector) or of -3000 and -4000 mm (baseline): the second is corrected by the first
  jump's magnitude and a step of 1000 mm stays in the result.
\<close>

theorem second_jump_corrected_by_first_magnitude:
  "filter_gnssir_jumps [(0, 0), (1, 3000), (2, 7000)] = Some (Inr [(0, 0), (1, 0), (2, 1000)])
   \<and> filter_rtklib_correct [(0, 8000), (1, 5000), (2, 1000), (3, 1001)] =
       Some (Inr [(0, 8000), (1, 8000), (2, 7000), (3, 7001)])"
proof -
  have g1: "gnssir_jump [(0, 0), (1, 3000), (2, 7000)] = [(1, 3000), (2, 7000)]"
    by (simp add: jump_eval)
  have g2: "gnssir_jump [(0, 0), (1, 0), (2, 4000)] = [(2, 4000)]"
    by (simp add: jump_eval)
  have g3: "gnssir_jump [(0, 0), (1, 0), (2, 1000)] = []"
    by (simp add: jump_eval)
  have "gnssir_jump_loop 3000 [(0, 0), (1, 3000), (2, 7000)] =
          gnssir_jump_loop 3000 [(0, 0), (1, 0), (2, 4000)]"
    using gnssir_loop_step [OF g1, of 3000] by (simp add: shift_after_def)
  also have "\<dots> = gnssir_jump_loop 3000 [(0, 0), (1, 0), (2, 1000)]"
    using gnssir_loop_step [OF g2, of 3000] by (simp add: shift_after_def)
  also have "\<dots> = Some [(0, 0), (1, 0), (2, 1000)]"
    by (rule gnssir_loop_stop [OF g3])
  finally have g: "filter_gnssir_jumps [(0, 0), (1, 3000), (2, 7000)] =
      Some (Inr [(0, 0), (1, 0), (2, 1000)])"
    by (simp add: filter_gnssir_jumps_def g1 first_index_def jump_value_def at_label_def
          before_label_def)
  have o: "filter_rtklib_outliers [(0, 8000), (1, 5000), (2, 1000), (3, 1001)] =
      Inr [(0, 8000), (1, 5000), (2, 1000), (3, 1001)]"
    by (simp add: filter_rtklib_outliers_def mask_rows_def diff_s_def gt_nan_def lt_nan_def
          next_line_def drop_label_def)
  have r1: "rtklib_jump [(0, 8000), (1, 5000), (2, 1000), (3, 1001)] = [(1, 5000), (2, 1000)]"
    by (simp add: jump_eval)
  have r2: "rtklib_jump [(0, 8000), (1, 8000), (2, 4000), (3, 4001)] = [(2, 4000)]"
    by (simp add: jump_eval)
  have r3: "rtklib_jump [(0, 8000), (1, 8000), (2, 7000), (3, 7001)] = []"
    by (simp add: jump_eval)
  have "rtklib_jump_loop (- 3000) [(0, 8000), (1, 5000), (2, 1000), (3, 1001)] =
          rtklib_jump_loop (- 3000) [(0, 8000), (1, 8000), (2, 4000), (3, 4001)]"
    using rtklib_loop_step [OF r1, of "- 3000"] by (simp add: shift_after_def)
  also have "\<dots> = rtklib_jump_loop (- 3000) [(0, 8000), (1, 8000), (2, 7000), (3, 7001)]"
    using rtklib_loop_step [OF r2, of "- 3000"] by (simp add: shift_after_def)
  also have "\<dots> = Some [(0, 8000), (1, 8000), (2, 7000), (3, 7001)]"
    by (rule rtklib_loop_stop [OF r3])
  finally have r: "filter_rtklib_correct [(0, 8000), (1, 5000), (2, 1000), (3, 1001)] =
      Some (Inr [(0, 8000), (1, 8000), (2, 7000), (3, 7001)])"
    by (simp add: filter_rtklib_correct_def o filter_rtklib_jumps_def r1 first_index_def
          jump_value_def at_label_def before_label_def)
  from g r show ?thesis by simp
qed

text \<open>
  C2. On 10, 11, 2000, 12, 13 the outlier pass of filter_rtklib_solutions drops the point
  2000 and leaves 10, 11, 12, 13. That series has no jump, so the jump step that follows
  raises IndexError and the correction as a whole returns nothing.
\<close>

theorem transient_outlier_dropped_then_raises:
  "filter_rtklib_outliers [(0, 10), (1, 11), (2, 2000), (3, 12), (4, 13)] =
     Inr [(0, 10), (1, 11), (3, 12), (4, 13)]
   \<and> filter_rtklib_correct [(0, 10), (1, 11), (2, 2000), (3, 12), (4, 13)] =
     Some (Inl IndexError)"
  by (simp add: filter_rtklib_correct_def filter_rtklib_jumps_def rtklib_jump_def first_index_def
        filter_rtklib_outliers_def mask_rows_def diff_s_def gt_nan_def lt_nan_def next_line_def
        drop_label_def)

section \<open>Properties of the outlier filter\<close>

lemma strict_index_map_of:
  "strict_index u \<Longrightarrow> (t, v) \<in> set u \<Longrightarrow> map_of u t = Some v"
proof -
  assume "strict_index u" and m: "(t, v) \<in> set u"
  then have "distinct (map fst u)" by (simp add: strict_index_def strict_sorted_iff)
  then show ?thesis using m by (rule map_of_is_SomeI)
qed

text \<open>
  C6. For every series, window length and sigma multiplier the outlier filter returns a
  subsequence of its input: the rows kept are rows of the input, in the input's order and
  with the input's values. On a series with strictly increasing timestamps the value the
  result holds at a timestamp is the value the input holds there. This holds for the
  window of three days that both filters pass.
\<close>

theorem outlier_filter_only_drops:
  "subseq (remove_outliers window threshold u) u
   \<and> (strict_index u \<longrightarrow>
        (\<forall>t v. map_of (remove_outliers window threshold u) t = Some v \<longrightarrow> map_of u t = Some v))
   \<and> subseq (filter_rtklib_clean threshold u) u
   \<and> subseq (filter_gnssir_clean threshold u) u"
proof -
  have s: "subseq (remove_outliers window threshold u) u" for window
    unfolding remove_outliers_def by (rule mask_rows_subseq)
  have "map_of u t = Some v"
    if "strict_index u" and "map_of (remove_outliers window threshold u) t = Some v" for t v
  proof -
    from that(2) have "(t, v) \<in> set (remove_outliers window threshold u)"
      by (rule map_of_SomeD)
    then have "(t, v) \<in> set u"
      using mask_rows_set unfolding remove_outliers_def by blast
    with that(1) show ?thesis by (rule strict_index_map_of)
  qed
  with s show ?thesis
    by (simp add: filter_rtklib_clean_def filter_gnssir_clean_def)
qed

text \<open>
  A run with the window of three days and two sigma: the first row has no standard
  deviation and is dropped, the other two lie within their limits and are kept.
\<close>

lemma outlier_example:
  "remove_outliers 259200 2 [(0, 0), (1, 2), (2, 1)] = [(1, 2), (2, 1)]"
proof -
  have r0: "rolling 259200 [(0, 0), (1, 2), (2, 1)] 0 = [0]"
    and r1: "rolling 259200 [(0, 0), (1, 2), (2, 1)] (Suc 0) = [0, 2]"
    and r2: "rolling 259200 [(0, 0), (1, 2), (2, 1)] (Suc (Suc 0)) = [0, 2, 1]"
    by (simp_all add: rolling_def)
  have m0: "median [0] = Some 0" by (simp add: median_def)
  have m1: "median [0, 2] = Some 1" and m2: "median [0, 2, 1] = Some 1"
    by (simp_all add: median_def)
  have s0: "std [0] = None" by (simp add: std_def)
  have s1: "std [0, 2] = Some (sqrt 2)"
    by (simp add: std_def mean_def power2_eq_square)
  have s2: "std [0, 2, 1] = Some 1"
    by (simp add: std_def mean_def power2_eq_square)
  have u: "[0..<3] = [0, 1, 2]" by (simp add: upt_rec)
  have "(1::real) < sqrt 2" by simp
  then have b: "1 < 2 * sqrt 2" "- 1 < 2 * sqrt 2" by linarith+
  show ?thesis
    by (simp add: b remove_outliers_def mask_rows_def upper_limit_def lower_limit_def
          r0 r1 r2 m0 m1 m2 s0 s1 s2 u cmp_gt_def cmp_lt_def)
qed

theorem outlier_filter_only_drops_witness:
  "strict_index [(0, 0), (1, 2), (2, 1)]
   \<and> remove_outliers 259200 2 [(0, 0), (1, 2), (2, 1)] = [(1, 2), (2, 1)]
   \<and> subseq [(1, 2), (2, 1 :: real)] [(0 :: int, 0), (1, 2), (2, 1)]
   \<and> map_of [(0 :: int, 0 :: real), (1, 2), (2, 1)] 2 = Some 1"
proof -
  have si: "strict_index [(0, 0), (1, 2), (2, 1)]" by (simp add: strict_index_def)
  have m: "map_of (remove_outliers 259200 2 [(0, 0), (1, 2), (2, 1)]) 2 = Some 1"
    by (simp add: outlier_example)
  from outlier_filter_only_drops [of 259200 2 "[(0, 0), (1, 2), (2, 1)]"] si m outlier_example
  show ?thesis by (simp del: subseq_Cons2_iff)
qed

section \<open>Properties of the density\<close>






text \<open>The buckets of the two examples, and a missing height, are absent from the result.\<close>

lemma density_examples:
  "convert_swesh2density [(0, Fin 100)] [(0, Fin 0)] = []"
  "convert_swesh2density [(0, Fin 10)] [(0, Fin 1)] = []"
  "convert_swesh2density [(0, Fin 100)] [(0, NaN)] = []"
  "convert_swesh2density [(0, Fin 100)] [(1, Fin 1)] = []"
  by (simp_all add: convert_swesh2density_def dropna_s_def divide_s_def union_index_def
        inf_signed_def)

section \<open>Properties of the error propagation\<close>

lemma linspace_nth:
  "i < 1001 \<Longrightarrow> linspace 0 10 1001 ! i = real i / 100"
  by (simp add: linspace_def)

lemma linspace_length: "length (linspace 0 10 1001) = 1001"
  by (simp add: linspace_def)

lemma err_row_finite:
  assumes "h \<noteq> 0" and "func_exp h a b c \<noteq> 0"
  shows "err_row a b c m_err h_err h =
           (h, Fin (spec_rel_err m_err h_err (func_exp h a b c) h),
               Fin (spec_abs_err m_err h_err (func_exp h a b c) h))"
  using assms
  by (simp add: err_row_def Let_def spec_rel_err_def spec_abs_err_def power2_eq_square)

lemma single_nth:
  assumes "1 \<le> i" and "i \<le> 1000" and "func_exp (real i / 100) a b c \<noteq> 0"
  shows "func_err_prop_single a b c m_err h_err ! i =
           (real i / 100,
            Fin (spec_rel_err m_err h_err (func_exp (real i / 100) a b c) (real i / 100)),
            Fin (spec_abs_err m_err h_err (func_exp (real i / 100) a b c) (real i / 100)))"
proof -
  have i: "i < 1001" using assms(2) by simp
  have h: "real i / 100 \<noteq> 0" using assms(1) by simp
  have "func_err_prop_single a b c m_err h_err ! i = err_row a b c m_err h_err (real i / 100)"
    unfolding func_err_prop_single_def using i
    by (simp add: linspace_length linspace_nth)
  then show ?thesis using err_row_finite [OF h assms(3)] by simp
qed

lemma single_length: "length (func_err_prop_single a b c m_err h_err) = 1001"
  by (simp add: func_err_prop_single_def linspace_length)

text \<open>
  C8. At every height \<open>h = i / 100\<close> of the grid with \<open>h > 0\<close> and a fitted mass
  \<open>mass(h) = a \<cdot> exp(b \<cdot> h) + c\<close> that is not zero, the row of func_err_prop_single
  holds the height, the relative error \<open>sqrt((\<sigma>_m / mass(h))\<^sup>2 + (\<sigma>_h / h)\<^sup>2)\<close> and the
  absolute error, the relative error times \<open>mass(h) / h\<close>. The row of func_err_prop
  holds these for its four pairs of uncertainties side by side.
\<close>

theorem err_prop_matches_formula:
  assumes "1 \<le> i" and "i \<le> 1000" and "func_exp (real i / 100) a b c \<noteq> 0"
  shows "func_err_prop_single a b c m_err h_err ! i =
           (real i / 100,
            Fin (spec_rel_err m_err h_err (func_exp (real i / 100) a b c) (real i / 100)),
            Fin (spec_abs_err m_err h_err (func_exp (real i / 100) a b c) (real i / 100)))
       \<and> func_err_prop a b c m1 m2 m3 m4 h1 h2 h3 h4 ! i =
           (func_err_prop_single a b c m1 h1 ! i, func_err_prop_single a b c m2 h2 ! i,
            func_err_prop_single a b c m3 h3 ! i, func_err_prop_single a b c m4 h4 ! i)
       \<and> spec_rel_err m_err h_err (func_exp (real i / 100) a b c) (real i / 100) =
           sqrt ((m_err / (a * exp (b * (real i / 100)) + c))\<^sup>2 + (h_err / (real i / 100))\<^sup>2)
       \<and> spec_abs_err m_err h_err (func_exp (real i / 100) a b c) (real i / 100) =
           spec_rel_err m_err h_err (func_exp (real i / 100) a b c) (real i / 100)
             * ((a * exp (b * (real i / 100)) + c) / (real i / 100))"
proof -
  have i: "i < 1001" using assms(2) by simp
  have "func_err_prop a b c m1 m2 m3 m4 h1 h2 h3 h4 ! i =
           (func_err_prop_single a b c m1 h1 ! i, func_err_prop_single a b c m2 h2 ! i,
            func_err_prop_single a b c m3 h3 ! i, func_err_prop_single a b c m4 h4 ! i)"
    using i by (simp add: func_err_prop_def Let_def single_length)
  then show ?thesis
    using single_nth [OF assms]
    by (simp add: spec_rel_err_def spec_abs_err_def func_exp_def)
qed

text \<open>
  At height 1 (index 100) with \<open>mass(h) = 1\<close>: uncertainties 3 and 4 give the relative
  error 5, uncertainties 6 and 8 give 10.
\<close>

theorem err_prop_matches_formula_witness:
  "func_err_prop_single 1 0 0 3 4 ! 100 = (1, Fin 5, Fin 5)
   \<and> func_err_prop 1 0 0 3 4 6 8 4 3 8 6 ! 100 =
       ((1, Fin 5, Fin 5), (1, Fin 5, Fin 5), (1, Fin 10, Fin 10), (1, Fin 10, Fin 10))"
proof -
  have s25: "sqrt 25 = 5" by (rule real_sqrt_unique) simp_all
  have s100: "sqrt 100 = 10" by (rule real_sqrt_unique) simp_all
  have m: "func_exp (real 100 / 100) 1 0 0 \<noteq> 0" by (simp add: func_exp_def)
  have r: "func_err_prop_single 1 0 0 3 4 ! 100 = (1, Fin 5, Fin 5)"
    "func_err_prop_single 1 0 0 4 3 ! 100 = (1, Fin 5, Fin 5)"
    "func_err_prop_single 1 0 0 6 8 ! 100 = (1, Fin 10, Fin 10)"
    "func_err_prop_single 1 0 0 8 6 ! 100 = (1, Fin 10, Fin 10)"
    using err_prop_matches_formula [of 100 1 0 0 3 4, OF _ _ m]
      err_prop_matches_formula [of 100 1 0 0 4 3, OF _ _ m]
      err_prop_matches_formula [of 100 1 0 0 6 8, OF _ _ m]
      err_prop_matches_formula [of 100 1 0 0 8 6, OF _ _ m]
    by (simp_all add: func_exp_def s25 s100)
  from err_prop_matches_formula [of 100 1 0 0 3 4 3 4 6 8 4 3 8 6, OF _ _ m] r
  show ?thesis by simp
qed

section \<open>Properties of the daily aggregation\<close>

lemma sort_Nil_iff: "sort xs = [] \<longleftrightarrow> xs = []"
  by (metis length_sort length_0_conv)

lemma median_None_iff: "median xs = None \<longleftrightarrow> xs = []"
proof (cases "xs = []")
  case True
  then show ?thesis by (simp add: median_def)
next
  case False
  then have n: "length (sort xs) \<noteq> 0" by simp
  have "median xs \<noteq> None"
  proof (cases "odd (length (sort xs))")
    case True
    with n show ?thesis unfolding median_def Let_def by (simp only: if_True if_False) simp
  next
    case False
    with n show ?thesis unfolding median_def Let_def by (simp only: if_True if_False) simp
  qed
  with False show ?thesis by simp
qed

lemma std_Nil: "std [] = None"
  by (simp add: std_def)

lemma resample_D_index:
  "u \<noteq> [] \<Longrightarrow> map fst (resample_D stat u) = [day_of (fst (hd u)) .. day_of (fst (last u))]"
  by (cases u) (auto simp: resample_D_def comp_def)

lemma resample_D_entry:
  "u \<noteq> [] \<Longrightarrow> d \<in> set [day_of (fst (hd u)) .. day_of (fst (last u))] \<Longrightarrow>
     (d, stat (bucket d u)) \<in> set (resample_D stat u)"
  by (cases u) (auto simp: resample_D_def)

lemma dropna_index:
  "map fst (dropna (map (\<lambda>d. (d, row d)) ds)) = filter (\<lambda>d. None \<notin> set (row d)) ds"
  by (induction ds) (auto simp: dropna_def)

lemma resample_median_index:
  assumes "f \<noteq> []"
  shows "map fst (dropna (resample_median interval f)) =
           filter (\<lambda>d. \<forall>k < length (snd (hd f)). column k (frame_bucket interval d f) \<noteq> [])
             [fst (hd f) div interval .. fst (last f) div interval]"
proof -
  obtain t0 r0 rest where f: "f = (t0, r0) # rest" using assms by (cases f) auto
  have "None \<notin> set (map (\<lambda>k. median (column k B)) [0..<n]) \<longleftrightarrow>
          (\<forall>k < n. column k B \<noteq> [])" for B n
  proof
    assume a: "None \<notin> set (map (\<lambda>k. median (column k B)) [0..<n])"
    show "\<forall>k < n. column k B \<noteq> []"
    proof (intro allI impI)
      fix k assume "k < n"
      then have "median (column k B) \<in> set (map (\<lambda>k. median (column k B)) [0..<n])"
        by (auto simp: image_iff)
      with a have "median (column k B) \<noteq> None" by metis
      then show "column k B \<noteq> []" by (simp add: median_None_iff)
    qed
  next
    assume "\<forall>k < n. column k B \<noteq> []"
    then have "\<forall>k < n. median (column k B) \<noteq> None" by (simp add: median_None_iff)
    then show "None \<notin> set (map (\<lambda>k. median (column k B)) [0..<n])" by (auto simp: image_iff)
  qed
  then show ?thesis
    unfolding f resample_median_def by (simp add: dropna_index del: upto.simps set_map)
qed

lemma column_Nil: "column k [] = []"
  by (simp add: column_def)


lemma resample_D_length:
  "u \<noteq> [] \<Longrightarrow>
     length (resample_D stat u) = nat (day_of (fst (last u)) - day_of (fst (hd u)) + 1)"
  using resample_D_index [of u stat] by (metis length_map length_upto)

lemma dropped_when_empty:
  assumes "f \<noteq> []" and "snd (hd f) \<noteq> []" and "frame_bucket interval d f = []"
  shows "d \<notin> fst ` set (dropna (resample_median interval f))"
proof -
  have "\<not> (\<forall>k < length (snd (hd f)). column k (frame_bucket interval d f) \<noteq> [])"
    using assms(2,3) by (auto simp: column_Nil)
  then have "d \<notin> set (map fst (dropna (resample_median interval f)))"
    unfolding resample_median_index [OF assms(1)] by simp
  then show ?thesis by simp
qed

lemma kept_when_filled:
  assumes "f \<noteq> []"
    and "\<forall>d \<in> set [fst (hd f) div interval .. fst (last f) div interval].
           \<forall>k < length (snd (hd f)). column k (frame_bucket interval d f) \<noteq> []"
  shows "length (dropna (resample_median interval f)) =
           nat (fst (last f) div interval - fst (hd f) div interval + 1)"
proof -
  have "map fst (dropna (resample_median interval f)) =
          [fst (hd f) div interval .. fst (last f) div interval]"
    unfolding resample_median_index [OF assms(1)] using assms(2) by (simp add: filter_id_conv)
  then show ?thesis by (metis length_map length_upto)
qed

text \<open>
  C9 (as amended). The daily median and standard deviation of filter_rtklib_solutions have
  one entry for every calendar day from the day of the first to the day of the last
  observation, N entries for a series that spans N days, each holding the statistic of its
  bucket; a day without observations is kept and holds NaN for both. resample_gnss takes
  the median only and applies \<open>dropna()\<close>: a day without observations is absent from
  its result, and when every day holds a value in every column its result has N entries.
\<close>

theorem daily_aggregation_calendar:
  assumes "u \<noteq> []" and "f \<noteq> []" and "snd (hd f) \<noteq> []"
  shows "length (swe_gnss_daily u) = nat (day_of (fst (last u)) - day_of (fst (hd u)) + 1)
       \<and> length (std_gnss_daily u) = nat (day_of (fst (last u)) - day_of (fst (hd u)) + 1)
       \<and> (\<forall>d \<in> set [day_of (fst (hd u)) .. day_of (fst (last u))].
             (d, median (bucket d u)) \<in> set (swe_gnss_daily u)
             \<and> (d, std (bucket d u)) \<in> set (std_gnss_daily u)
             \<and> (bucket d u = [] \<longrightarrow>
                   (d, None) \<in> set (swe_gnss_daily u) \<and> (d, None) \<in> set (std_gnss_daily u)))
       \<and> (resample_gnss (Some f) (Some g) 86400 = Inr (r, r') \<longrightarrow>
             (\<forall>d. frame_bucket 86400 d f = [] \<longrightarrow> d \<notin> fst ` set r)
             \<and> ((\<forall>d \<in> set [fst (hd f) div 86400 .. fst (last f) div 86400].
                    \<forall>k < length (snd (hd f)). column k (frame_bucket 86400 d f) \<noteq> [])
                  \<longrightarrow> length r = nat (fst (last f) div 86400 - fst (hd f) div 86400 + 1)))"
proof -
  have l: "length (swe_gnss_daily u) = nat (day_of (fst (last u)) - day_of (fst (hd u)) + 1)"
    "length (std_gnss_daily u) = nat (day_of (fst (last u)) - day_of (fst (hd u)) + 1)"
    unfolding swe_gnss_daily_def std_gnss_daily_def
    by (rule resample_D_length [OF assms(1)])+
  have e: "(d, median (bucket d u)) \<in> set (swe_gnss_daily u)
             \<and> (d, std (bucket d u)) \<in> set (std_gnss_daily u)
             \<and> (bucket d u = [] \<longrightarrow>
                   (d, None) \<in> set (swe_gnss_daily u) \<and> (d, None) \<in> set (std_gnss_daily u))"
    if "d \<in> set [day_of (fst (hd u)) .. day_of (fst (last u))]" for d
  proof -
    have m: "(d, median (bucket d u)) \<in> set (swe_gnss_daily u)"
      and s: "(d, std (bucket d u)) \<in> set (std_gnss_daily u)"
      unfolding swe_gnss_daily_def std_gnss_daily_def
      by (rule resample_D_entry [OF assms(1) that])+
    have "(d, None) \<in> set (swe_gnss_daily u) \<and> (d, None) \<in> set (std_gnss_daily u)"
      if "bucket d u = []"
      using m s that by (simp add: median_None_iff [THEN iffD2] std_Nil)
    with m s show ?thesis by blast
  qed
  have g: "(\<forall>d. frame_bucket 86400 d f = [] \<longrightarrow> d \<notin> fst ` set r)
             \<and> ((\<forall>d \<in> set [fst (hd f) div 86400 .. fst (last f) div 86400].
                    \<forall>k < length (snd (hd f)). column k (frame_bucket 86400 d f) \<noteq> [])
                  \<longrightarrow> length r = nat (fst (last f) div 86400 - fst (hd f) div 86400 + 1))"
    if "resample_gnss (Some f) (Some g) 86400 = Inr (r, r')"
  proof -
    from that have r: "r = dropna (resample_median 86400 f)"
      by (simp add: resample_gnss_def)
    show ?thesis unfolding r
      using dropped_when_empty [OF assms(2,3)] kept_when_filled [OF assms(2)] by blast
  qed
  from l e g show ?thesis by blast
qed

text \<open>
  Observations on day 0 (two) and on day 2 (one), none on day 1.
\<close>

lemma sqrt2_std: "std [1, 3] = Some (sqrt 2)"
  by (simp add: std_def mean_def power2_eq_square)

lemma daily_example:
  "swe_gnss_daily [(0, 1), (100, 3), (172800, 5)] = [(0, Some 2), (1, None), (2, Some 5)]"
  "std_gnss_daily [(0, 1), (100, 3), (172800, 5)] = [(0, Some (sqrt 2)), (1, None), (2, None)]"
proof -
  have b: "bucket 0 [(0, 1), (100, 3), (172800, 5)] = [1, 3]"
    "bucket 1 [(0, 1), (100, 3), (172800, 5)] = []"
    "bucket 2 [(0, 1), (100, 3), (172800, 5)] = [5]"
    by (simp_all add: bucket_def day_of_def)
  have d: "[day_of 0 .. day_of 172800] = [0, 1, 2]"
    by (simp add: day_of_def upto_rec1)
  have m: "median [1, 3] = Some 2" "median [] = None" "median [5] = Some 5"
    by (simp_all add: median_def)
  have s: "std [] = None" "std [5] = None" by (simp_all add: std_def)
  show "swe_gnss_daily [(0, 1), (100, 3), (172800, 5)] = [(0, Some 2), (1, None), (2, Some 5)]"
    by (simp add: swe_gnss_daily_def resample_D_def d b m del: upto.simps)
  show "std_gnss_daily [(0, 1), (100, 3), (172800, 5)] = [(0, Some (sqrt 2)), (1, None), (2, None)]"
    by (simp add: std_gnss_daily_def resample_D_def d b s sqrt2_std del: upto.simps)
qed

lemma resample_gnss_example:
  "resample_gnss (Some [(0, [Some 1]), (100, [Some 3]), (172800, [Some 5])])
       (Some [(0, [Some 1]), (100, [Some 3]), (172800, [Some 5])]) 86400 =
     Inr ([(0, [Some 2]), (2, [Some 5])], [(0, [Some 2]), (2, [Some 5])])"
proof -
  let ?f = "[(0, [Some 1]), (100, [Some 3]), (172800, [Some 5])] :: frame"
  have b: "frame_bucket 86400 0 ?f = [ [Some 1], [Some 3] ]"
    "frame_bucket 86400 1 ?f = []"
    "frame_bucket 86400 2 ?f = [ [Some 5] ]"
    by (simp_all add: frame_bucket_def)
  have d: "[(0::int) .. 2] = [0, 1, 2]"
    by (simp add: upto_rec1)
  have m: "median [1, 3] = Some 2" "median [] = None" "median [5] = Some 5"
    by (simp_all add: median_def)
  have "dropna (resample_median 86400 ?f) = [(0, [Some 2]), (2, [Some 5])]"
    by (simp add: resample_median_def d b column_def m dropna_def del: upto.simps)
  then show ?thesis by (simp add: resample_gnss_def)
qed

theorem daily_aggregation_calendar_witness:
  "swe_gnss_daily [(0, 1), (100, 3), (172800, 5)] = [(0, Some 2), (1, None), (2, Some 5)]
   \<and> std_gnss_daily [(0, 1), (100, 3), (172800, 5)] = [(0, Some (sqrt 2)), (1, None), (2, None)]
   \<and> length (swe_gnss_daily [(0, 1), (100, 3), (172800, 5)]) = 3
   \<and> length (std_gnss_daily [(0, 1), (100, 3), (172800, 5)]) = 3
   \<and> bucket 1 [(0, 1), (100, 3), (172800, 5)] = []
   \<and> (1, None) \<in> set (swe_gnss_daily [(0, 1), (100, 3), (172800, 5)])
   \<and> (1, None) \<in> set (std_gnss_daily [(0, 1), (100, 3), (172800, 5)])
   \<and> frame_bucket 86400 1 [(0, [Some 1]), (100, [Some 3]), (172800, [Some 5])] = []
   \<and> 1 \<notin> fst ` set [(0 :: int, [Some (2 :: real)]), (2, [Some 5])]
   \<and> length (dropna (resample_median 86400 [(0, [Some 1]), (86400, [Some 3])])) = 2"
proof -
  let ?u = "[(0, 1), (100, 3), (172800, 5)] :: series"
  let ?f = "[(0, [Some 1]), (100, [Some 3]), (172800, [Some 5])] :: frame"
  let ?h = "[(0, [Some 1]), (86400, [Some 3])] :: frame"
  let ?r = "[(0, [Some 2]), (2, [Some 5])] :: (int \<times> real option list) list"
  have d: "[day_of 0 .. day_of 172800] = [0, 1, 2]"
    by (simp add: day_of_def upto_rec1)
  have b: "bucket 1 ?u = []" by (simp add: bucket_def day_of_def)
  have fb: "frame_bucket 86400 1 ?f = []" by (simp add: frame_bucket_def)
  note t = daily_aggregation_calendar [of ?u ?f ?f ?r ?r]
  have hb: "frame_bucket 86400 0 ?h = [ [Some 1] ]" "frame_bucket 86400 1 ?h = [ [Some 3] ]"
    by (simp_all add: frame_bucket_def)
  have hd: "[(0::int) .. 1] = [0, 1]" by (simp add: upto_rec1)
  have full: "\<forall>d \<in> set [fst (hd ?h) div 86400 .. fst (last ?h) div 86400].
               \<forall>k < length (snd (hd ?h)). column k (frame_bucket 86400 d ?h) \<noteq> []"
    using hd by (simp add: hb column_def del: upto.simps)
  have hr: "resample_gnss (Some ?h) (Some ?h) 86400 =
              Inr (dropna (resample_median 86400 ?h), dropna (resample_median 86400 ?h))"
    by (simp add: resample_gnss_def)
  note t2 = daily_aggregation_calendar
    [of ?u ?h ?h "dropna (resample_median 86400 ?h)" "dropna (resample_median 86400 ?h)"]
  have l2: "length (dropna (resample_median 86400 ?h)) = 2"
    using t2 hr full by simp
  have "1 \<notin> fst ` set ?r"
    using t resample_gnss_example fb by simp
  moreover have "(1, None) \<in> set (swe_gnss_daily ?u) \<and> (1, None) \<in> set (std_gnss_daily ?u)"
    using t b d by simp
  moreover have "length (swe_gnss_daily ?u) = 3 \<and> length (std_gnss_daily ?u) = 3"
    using t by (simp add: day_of_def)
  ultimately show ?thesis using daily_example b fb l2 by simp
qed

text \<open>
  C9 as the specification gives it fails for resample_gnss: on a frame with observations
  on day 0 and day 2 the bucket of day 1 is empty and the result has the days 0 and 2
  only; day 1 is dropped, not kept as missing.
\<close>

theorem resample_gnss_drops_empty_days_counterexample:
  "resample_gnss (Some [(0, [Some 1]), (100, [Some 3]), (172800, [Some 5])])
       (Some [(0, [Some 1]), (100, [Some 3]), (172800, [Some 5])]) 86400 =
     Inr ([(0, [Some 2]), (2, [Some 5])], [(0, [Some 2]), (2, [Some 5])])
   \<and> frame_bucket 86400 1 [(0, [Some 1]), (100, [Some 3]), (172800, [Some 5])] = []
   \<and> map fst [(0 :: int, [Some (2 :: real)]), (2, [Some 5])] = [0, 2]"
  using resample_gnss_example by (simp add: frame_bucket_def)

section \<open>Properties of the curve fit\<close>


lemma fit_with_Inl:
  "curve_fit f x_data y_data guess sigma = Inl e \<Longrightarrow>
     fit_with curve_fit f x_data y_data guess sigma = Inl e"
  by (simp add: fit_with_def)



end
